theory Spec2Isabelle
  imports Main
begin

section \<open>Python strings and slices\<close>

text \<open>
  A Python \<open>str\<close> is modelled as a \<open>string\<close>: a list of characters with the code points
  0 to 255, the character \<open>c\<close> having the code point \<open>of_char c\<close>. On these code points the
  functions below are Python's:
  \<^item> \<open>str.lower\<close> adds 32 to the code points 65 to 90 (\<open>A..Z\<close>) and 192 to 222 without 215,
    and changes no other;
  \<^item> \<open>str.upper\<close> subtracts 32 from the code points 97 to 122 (\<open>a..z\<close>) and 224 to 254
    without 247, turns 223 into the two letters \<open>SS\<close>, 181 into the code point 924 and 255
    into the code point 376, and changes no other. Two of the results are beyond 255, so
    \<open>upper\<close> returns a list of code points;
  \<^item> \<open>str.isspace\<close> holds of the code points 9 to 13, 28 to 32, 133 and 160, and
    \<open>str.strip\<close> removes these from both ends.
\<close>

definition lower_char :: "char \<Rightarrow> char" where
  "lower_char c =
     (let n = (of_char c :: nat)
      in if (65 \<le> n \<and> n \<le> 90) \<or> (192 \<le> n \<and> n \<le> 222 \<and> n \<noteq> 215)
         then char_of (n + 32) else c)"

definition lower :: "string \<Rightarrow> string" where
  "lower s = map lower_char s"

definition upper_char :: "char \<Rightarrow> nat list" where
  "upper_char c =
     (let n = (of_char c :: nat)
      in if (97 \<le> n \<and> n \<le> 122) \<or> (224 \<le> n \<and> n \<le> 254 \<and> n \<noteq> 247) then [n - 32]
         else if n = 223 then [83, 83]
         else if n = 181 then [924]
         else if n = 255 then [376]
         else [n])"

definition upper :: "string \<Rightarrow> nat list" where
  "upper s = concat (map upper_char s)"

definition is_space :: "char \<Rightarrow> bool" where
  "is_space c =
     (let n = (of_char c :: nat)
      in (9 \<le> n \<and> n \<le> 13) \<or> (28 \<le> n \<and> n \<le> 32) \<or> n = 133 \<or> n = 160)"

definition strip :: "string \<Rightarrow> string" where
  "strip s = rev (dropWhile is_space (rev (dropWhile is_space s)))"

text \<open>\<open>s.startswith(p)\<close>, on texts and on lists of code points.\<close>

fun startswith :: "'a list \<Rightarrow> 'a list \<Rightarrow> bool" where
  "startswith s [] = True"
| "startswith [] (p # ps) = False"
| "startswith (c # cs) (p # ps) = (c = p \<and> startswith cs ps)"

text \<open>\<open>t in s\<close> on strings: \<open>t\<close> occurs in \<open>s\<close> as a contiguous block, at any position.\<close>

fun contains :: "string \<Rightarrow> string \<Rightarrow> bool" where
  "contains t [] = (t = [])"
| "contains t (c # cs) = (startswith (c # cs) t \<or> contains t cs)"

text \<open>\<open>sep.join(parts)\<close>.\<close>

fun join :: "string \<Rightarrow> string list \<Rightarrow> string" where
  "join sep [] = []"
| "join sep [p] = p"
| "join sep (p # q # ps) = p @ sep @ join sep (q # ps)"

text \<open>The decimal digits of a natural number, as \<open>str(i)\<close> and \<open>f"{i}"\<close> print it.\<close>

fun digits :: "nat \<Rightarrow> string" where
  "digits n =
     (if n < 10 then [char_of (48 + n)] else digits (n div 10) @ [char_of (48 + n mod 10)])"

declare digits.simps [simp del]

text \<open>
  The slice \<open>xs[start:]\<close>: a negative \<open>start\<close> counts from the end and is clipped at the
  front of the list, a non-negative one is clipped at its end. In particular \<open>xs[-0:]\<close> is
  \<open>xs[0:]\<close>, the whole list.
\<close>

definition py_slice_from :: "int \<Rightarrow> 'a list \<Rightarrow> 'a list" where
  "py_slice_from start xs =
     (let n = int (length xs);
          s = (if start < 0 then max (n + start) 0 else min start n)
      in drop (nat s) xs)"

text \<open>The slice \<open>xs[:stop]\<close> for a non-negative \<open>stop\<close>.\<close>

definition py_slice_to :: "nat \<Rightarrow> 'a list \<Rightarrow> 'a list" where
  "py_slice_to stop xs = take stop xs"


section \<open>Messages and the memory window (memory\_maager.py)\<close>

text \<open>
  A message is a Python dict with string keys; the code reads the keys \<open>role\<close> and
  \<open>content\<close>.
\<close>

type_synonym message = "string \<rightharpoonup> string"

record memory_manager =
  window_size :: int

text \<open>
  \<^verbatim>\<open>
  def get_recent_history(self, full_history):
      if not full_history:
          return []
      max_messages = self.window_size * 2
      return full_history[-max_messages:]
  \<close>
\<close>

definition get_recent_history :: "memory_manager \<Rightarrow> message list \<Rightarrow> message list" where
  "get_recent_history self full_history =
     (if full_history = [] then []
      else (let max_messages = window_size self * 2
            in py_slice_from (- max_messages) full_history))"

text \<open>Three messages of a transcript: a question, its answer and a second question.\<close>

definition msg_u1 :: message where
  "msg_u1 = [''role'' \<mapsto> ''user'', ''content'' \<mapsto> ''What is CURT?'']"

definition msg_a1 :: message where
  "msg_a1 = [''role'' \<mapsto> ''assistant'', ''content'' \<mapsto> ''A racing team.'']"

definition msg_u2 :: message where
  "msg_u2 = [''role'' \<mapsto> ''user'', ''content'' \<mapsto> ''Who leads it?'']"


section \<open>Prompts and classifiers (prompts.py)\<close>

text \<open>\<open>d.get(k, default)\<close> on a dict.\<close>

definition dict_get :: "('k \<rightharpoonup> 'v) \<Rightarrow> 'k \<Rightarrow> 'v \<Rightarrow> 'v" where
  "dict_get d k dflt = (case d k of None \<Rightarrow> dflt | Some v \<Rightarrow> v)"

definition NO_CONTEXT_RESPONSE :: string where
  "NO_CONTEXT_RESPONSE =
     ''I don't have specific information about that in my current knowledge base. \<newline>'' @
     ''\<newline>'' @
     ''Here's what I can help you with:\<newline>'' @
     ''- CURT team structure and members\<newline>'' @
     ''- History and achievements\<newline>'' @
     ''- Current projects and competitions\<newline>'' @
     ''- FAQs about joining or collaborating\<newline>'' @
     ''\<newline>'' @
     ''You can also reach out to CURT directly through their official channels for more detailed information.''"

definition GREETING_RESPONSE :: string where
  "GREETING_RESPONSE =
     ''Hello! I'm the CURT chatbot, here to help you learn about the Cairo University Racing Team.\<newline>'' @
     ''\<newline>'' @
     ''I can tell you about:\<newline>'' @
     ''- Our team structure and members\<newline>'' @
     ''- Competition history and achievements  \<newline>'' @
     ''- Current projects\<newline>'' @
     ''- How to get involved\<newline>'' @
     ''\<newline>'' @
     ''What would you like to know?''"

definition OFF_TOPIC_RESPONSE :: string where
  "OFF_TOPIC_RESPONSE =
     ''I'm specifically designed to answer questions about CURT (Cairo University Racing Team). \<newline>'' @
     ''\<newline>'' @
     ''I can help you with information about:\<newline>'' @
     ''- The team and its members\<newline>'' @
     ''- Competitions and achievements\<newline>'' @
     ''- Projects and technical work\<newline>'' @
     ''- How to join or collaborate\<newline>'' @
     ''\<newline>'' @
     ''Is there anything about CURT I can help you with?''"

text \<open>
  \<^verbatim>\<open>
  def is_greeting(query):
      greetings = ['hi', 'hello', 'hey', 'greetings', 'good morning',
                   'good afternoon', 'good evening']
      query_lower = query.lower().strip()
      return query_lower in greetings or any(
          query_lower.startswith(g + ' ') or query_lower.startswith(g + ',')
          for g in greetings)
  \<close>
\<close>

definition greetings :: "string list" where
  "greetings = [''hi'', ''hello'', ''hey'', ''greetings'', ''good morning'',
                ''good afternoon'', ''good evening'']"

definition is_greeting :: "string \<Rightarrow> bool" where
  "is_greeting query =
     (let query_lower = strip (lower query)
      in query_lower \<in> set greetings \<or>
         list_ex (\<lambda>g. startswith query_lower (g @ '' '') \<or> startswith query_lower (g @ '',''))
           greetings)"

text \<open>
  \<^verbatim>\<open>
  def is_off_topic(query):
      off_topic_keywords = ['weather', 'recipe', 'movie', 'sports score', 'politics',
                            'stock', 'celebrity', 'video game', 'restaurant', 'fashion']
      query_lower = query.lower()
      if any(term in query_lower for term in
             ['curt', 'car', 'racing team', 'competition', 'racing', 'cairo university']):
          return False
      return any(keyword in query_lower for keyword in off_topic_keywords)
  \<close>
  The list of on-topic terms is written inside the \<open>if\<close>; here it has a name.
\<close>

definition off_topic_keywords :: "string list" where
  "off_topic_keywords = [''weather'', ''recipe'', ''movie'', ''sports score'', ''politics'',
                         ''stock'', ''celebrity'', ''video game'', ''restaurant'', ''fashion'']"

definition on_topic_terms :: "string list" where
  "on_topic_terms = [''curt'', ''car'', ''racing team'', ''competition'', ''racing'',
                     ''cairo university'']"

definition is_off_topic :: "string \<Rightarrow> bool" where
  "is_off_topic query =
     (let query_lower = lower query
      in if list_ex (\<lambda>term. contains term query_lower) on_topic_terms then False
         else list_ex (\<lambda>keyword. contains keyword query_lower) off_topic_keywords)"

text \<open>
  A retrieved document has its text and a metadata dict. Of the metadata the code reads
  the key \<open>source\<close> and writes the key \<open>rerank_score\<close>; a key that is absent is \<open>None\<close>.
  The relevance score is a float the code stores and never computes with: its type is
  the parameter \<open>'s\<close>.
\<close>

record 's metadata =
  source :: "string option"
  rerank_score :: "'s option"

record 's document =
  page_content :: string
  metadata :: "'s metadata"

text \<open>
  \<open>format_sources\<close> takes chunks of two shapes: an object with a \<open>metadata\<close> attribute (a
  document), or a dict that may have the keys \<open>source\<close> and \<open>metadata\<close>.
\<close>

record 's dict_chunk =
  chunk_source :: "string option"
  chunk_metadata :: "'s metadata option"

datatype 's chunk = DocumentChunk "'s document" | DictChunk "'s dict_chunk"

text \<open>
  \<^verbatim>\<open>
  if hasattr(chunk, 'metadata'):
      source = chunk.metadata.get('source', 'Unknown')
  else:
      source = chunk.get('source', chunk.get('metadata', {}).get('source', 'Unknown'))
  \<close>
\<close>

fun get_source :: "'s chunk \<Rightarrow> string" where
  "get_source (DocumentChunk d) =
     (case source (metadata d) of None \<Rightarrow> ''Unknown'' | Some s \<Rightarrow> s)"
| "get_source (DictChunk c) =
     (case chunk_source c of
        Some s \<Rightarrow> s
      | None \<Rightarrow>
          (case chunk_metadata c of
             None \<Rightarrow> ''Unknown''
           | Some m \<Rightarrow> (case source m of None \<Rightarrow> ''Unknown'' | Some s \<Rightarrow> s)))"

text \<open>
  \<^verbatim>\<open>
  def format_sources(chunks):
      if not chunks:
          return ""
      sources = "\n\n**Sources:**\n"
      seen_sources = set()
      for i, chunk in enumerate(chunks, 1):
          source = ...
          if source not in seen_sources:
              sources += f"{i}. {source}\n"
              seen_sources.add(source)
      return sources
  \<close>
  The loop is \<open>sources_loop\<close>: its state is the counter \<open>i\<close> of \<open>enumerate\<close>, the chunks
  still to visit, the set \<open>seen_sources\<close> and the text \<open>sources\<close> built so far.
\<close>

definition SOURCES_HEADER :: string where
  "SOURCES_HEADER = ''\<newline>\<newline>**Sources:**\<newline>''"

fun sources_loop :: "nat \<Rightarrow> 's chunk list \<Rightarrow> string set \<Rightarrow> string \<Rightarrow> string" where
  "sources_loop i [] seen_sources sources = sources"
| "sources_loop i (chunk # rest) seen_sources sources =
     (let src = get_source chunk
      in if src \<notin> seen_sources
         then sources_loop (i + 1) rest (insert src seen_sources)
                (sources @ digits i @ ''. '' @ src @ ''\<newline>'')
         else sources_loop (i + 1) rest seen_sources sources)"

definition format_sources :: "'s chunk list \<Rightarrow> string" where
  "format_sources chunks =
     (if chunks = [] then [] else sources_loop 1 chunks {} SOURCES_HEADER)"

text \<open>
  The 0-based positions of the chunks that get a citation line: those whose source
  identifier is not the identifier of an earlier chunk.
\<close>

definition cited :: "'s chunk list \<Rightarrow> nat list" where
  "cited chunks =
     filter (\<lambda>i. get_source (chunks ! i) \<notin> get_source ` set (take i chunks))
       [0..<length chunks]"

text \<open>
  \<^verbatim>\<open>
  def format_chat_history(messages):
      formatted = []
      for msg in messages:
          role = msg.get('role', 'user')
          content = msg.get('content', '')
          if role == 'user':
              formatted.append(HumanMessage(content=content))
          elif role == 'assistant':
              formatted.append(AIMessage(content=content))
      return formatted
  \<close>
\<close>

datatype lc_message = HumanMessage string | AIMessage string

fun format_loop :: "lc_message list \<Rightarrow> message list \<Rightarrow> lc_message list" where
  "format_loop formatted [] = formatted"
| "format_loop formatted (msg # rest) =
     (let role = dict_get msg ''role'' ''user'';
          content = dict_get msg ''content'' ''''
      in if role = ''user'' then format_loop (formatted @ [HumanMessage content]) rest
         else if role = ''assistant'' then format_loop (formatted @ [AIMessage content]) rest
         else format_loop formatted rest)"

definition format_chat_history :: "message list \<Rightarrow> lc_message list" where
  "format_chat_history messages = format_loop [] messages"

text \<open>
  \<^verbatim>\<open>
  def enhance_response_with_sources(answer, chunks):
      sources = format_sources(chunks)
      return f"{answer}\n{sources}" if sources else answer
  \<close>
\<close>

definition enhance_response_with_sources :: "string \<Rightarrow> 's chunk list \<Rightarrow> string" where
  "enhance_response_with_sources answer chunks =
     (let sources = format_sources chunks
      in if sources \<noteq> [] then answer @ ''\<newline>'' @ sources else answer)"


section \<open>The retrieval pipeline (rag\_pipeline.py)\<close>

text \<open>
  The external collaborators are parameters of the model. A call either returns a value
  or raises, and a call that raises is \<open>Inl\<close> of what it raised: \<open>Exn msg\<close> is an instance
  of Python's \<open>Exception\<close>, and \<open>BaseExn msg\<close> is a \<open>BaseException\<close> that is not one
  (\<open>KeyboardInterrupt\<close>, \<open>SystemExit\<close>, \<open>GeneratorExit\<close>), which \<open>except Exception\<close> does
  not catch. Within one run every collaborator is called at most once, so a function of
  the call's arguments describes any behaviour of the collaborator in that run. What the
  code prints is not part of the model.
\<close>

datatype exn = Exn string | BaseExn string

text \<open>One entry of \<open>rerank_response.results\<close>.\<close>

record 's rerank_result =
  index :: int
  relevance_score :: "'s"

record 's collaborators =
  expansion_chain :: "string \<Rightarrow> exn + string"
  retriever :: "string \<Rightarrow> exn + 's document list"
  cohere_rerank :: "string \<Rightarrow> string list \<Rightarrow> nat \<Rightarrow> exn + 's rerank_result list"
  rag_chain :: "string \<Rightarrow> string \<Rightarrow> lc_message list \<Rightarrow> exn + string"
  hallucination_chain :: "string \<Rightarrow> string \<Rightarrow> exn + string"

text \<open>
  \<open>xs[i]\<close> for a Python int \<open>i\<close>: the position read, or \<open>None\<close> where Python raises
  \<open>IndexError\<close>. A negative index counts from the end.
\<close>

definition py_index :: "'a list \<Rightarrow> int \<Rightarrow> nat option" where
  "py_index xs i =
     (if 0 \<le> i \<and> i < int (length xs) then Some (nat i)
      else if i < 0 \<and> - int (length xs) \<le> i then Some (nat (int (length xs) + i))
      else None)"

text \<open>
  \<^verbatim>\<open>
  reranked_docs = []
  for result in rerank_response.results:
      original_doc = documents[result.index]
      original_doc.metadata['rerank_score'] = result.relevance_score
      reranked_docs.append(original_doc)
  \<close>
  The loop writes into the documents it was given, and \<open>reranked_docs\<close> holds references
  to them: the list \<open>documents\<close> is the store (its positions are the objects, taken to be
  distinct), and \<open>reranked_docs\<close> is a list of positions. The loop returns the store and
  the positions, or the store and \<open>None\<close> when an index is out of range; the documents
  written before that keep their score.
\<close>

fun rerank_loop ::
  "'s document list \<Rightarrow> nat list \<Rightarrow> 's rerank_result list \<Rightarrow> 's document list \<times> nat list option"
where
  "rerank_loop documents reranked_docs [] = (documents, Some reranked_docs)"
| "rerank_loop documents reranked_docs (result # rest) =
     (case py_index documents (index result) of
        None \<Rightarrow> (documents, None)
      | Some j \<Rightarrow>
          (let original_doc = documents ! j;
               scored = original_doc
                 \<lparr>metadata := (metadata original_doc)
                    \<lparr>rerank_score := Some (relevance_score result)\<rparr>\<rparr>
           in rerank_loop (documents[j := scored]) (reranked_docs @ [j]) rest))"

text \<open>
  \<^verbatim>\<open>
  def _rerank_with_cohere(self, query, documents, top_n=5):
      if not documents:
          return []
      doc_texts = [doc.page_content for doc in documents]
      try:
          rerank_response = self.cohere_client.rerank(model=..., query=query,
              documents=doc_texts, top_n=top_n, return_documents=True)
          (the loop above)
          return reranked_docs
      except Exception as e:
          return documents[:top_n]
  \<close>
\<close>

text \<open>
  The \<open>try\<close> block holds the call and the loop. \<open>except Exception\<close> catches what the call
  raises when that is an \<open>Exception\<close>, and the \<open>IndexError\<close> of the loop; what the call
  raises otherwise leaves the function.
\<close>

definition rerank_with_cohere ::
  "'s collaborators \<Rightarrow> string \<Rightarrow> 's document list \<Rightarrow> nat \<Rightarrow> exn + 's document list"
where
  "rerank_with_cohere self query documents top_n =
     (if documents = [] then Inr []
      else (let doc_texts = map page_content documents
            in case cohere_rerank self query doc_texts top_n of
                 Inl (Exn e) \<Rightarrow> Inr (py_slice_to top_n documents)
               | Inl (BaseExn e) \<Rightarrow> Inl (BaseExn e)
               | Inr results \<Rightarrow>
                   (case rerank_loop documents [] results of
                      (documents', None) \<Rightarrow> Inr (py_slice_to top_n documents')
                    | (documents', Some reranked_docs) \<Rightarrow>
                        Inr (map (\<lambda>j. documents' ! j) reranked_docs))))"

text \<open>
  The dict that \<open>run\<close> returns has string keys; a value is a text or a list of documents.
\<close>

datatype 's pyval = Str string | Docs "'s document list"

type_synonym 's pipeline_result = "string \<rightharpoonup> 's pyval"

text \<open>The sentence appended to an answer that the verification flags.\<close>

definition DISCLAIMER :: string where
  "DISCLAIMER =
     ''\<newline>\<newline>*(Note: I verified this answer against my database and found some parts might not be explicitly supported. Please verify with official team documents.)*''"

text \<open>\<open>check_result.strip().upper().startswith("HALLUCINATION")\<close>.\<close>

definition flags_hallucination :: "string \<Rightarrow> bool" where
  "flags_hallucination check_result =
     startswith (upper (strip check_result)) (map of_char ''HALLUCINATION'')"

text \<open>
  \<^verbatim>\<open>
  def run(self, query, chat_history=[]):
      if prompts.is_greeting(query):
          return {"answer": prompts.GREETING_RESPONSE, "sources": [], "status": "greeting"}
      if prompts.is_off_topic(query):
          return {"answer": prompts.OFF_TOPIC_RESPONSE, "sources": [], "status": "off_topic"}
      expanded_query = self.expansion_chain.invoke({"query": query})
      raw_docs = self.retriever.invoke(expanded_query)
      if not raw_docs:
          return {"answer": prompts.NO_CONTEXT_RESPONSE, "sources": [], "status": "no_docs"}
      valid_docs = self._rerank_with_cohere(query, raw_docs, top_n=5)
      compressed_context = "\n\n".join([doc.page_content for doc in valid_docs])
      formatted_history = prompts.format_chat_history(chat_history)
      answer = self.rag_chain.invoke({"context": compressed_context,
          "question": query, "chat_history": formatted_history})
      check_result = self.hallucination_chain.invoke(
          {"context": compressed_context, "answer": answer})
      if check_result.strip().upper().startswith("HALLUCINATION"):
          answer += "\n\n*(Note: ... official team documents.)*"
      final_response = prompts.enhance_response_with_sources(answer, valid_docs)
      return {"answer": final_response, "raw_answer": answer, "sources": valid_docs,
              "expanded_query": expanded_query, "status": "success"}
  \<close>
  What the expansion, the retrieval, the generation or the verification raises is not
  caught, and neither is what \<open>_rerank_with_cohere\<close> lets through: the run ends with it.
\<close>

definition run ::
  "'s collaborators \<Rightarrow> string \<Rightarrow> message list \<Rightarrow> exn + 's pipeline_result"
where
  "run self query chat_history =
     (if is_greeting query then
        Inr [''answer'' \<mapsto> Str GREETING_RESPONSE, ''sources'' \<mapsto> Docs [],
             ''status'' \<mapsto> Str ''greeting'']
      else if is_off_topic query then
        Inr [''answer'' \<mapsto> Str OFF_TOPIC_RESPONSE, ''sources'' \<mapsto> Docs [],
             ''status'' \<mapsto> Str ''off_topic'']
      else
        (case expansion_chain self query of
           Inl e \<Rightarrow> Inl e
         | Inr expanded_query \<Rightarrow>
        (case retriever self expanded_query of
           Inl e \<Rightarrow> Inl e
         | Inr raw_docs \<Rightarrow>
        if raw_docs = [] then
          Inr [''answer'' \<mapsto> Str NO_CONTEXT_RESPONSE, ''sources'' \<mapsto> Docs [],
               ''status'' \<mapsto> Str ''no_docs'']
        else
        (case rerank_with_cohere self query raw_docs 5 of
           Inl e \<Rightarrow> Inl e
         | Inr valid_docs \<Rightarrow>
          (let compressed_context = join ''\<newline>\<newline>'' (map page_content valid_docs);
               formatted_history = format_chat_history chat_history
           in case rag_chain self compressed_context query formatted_history of
                Inl e \<Rightarrow> Inl e
              | Inr answer \<Rightarrow>
             (case hallucination_chain self compressed_context answer of
                Inl e \<Rightarrow> Inl e
              | Inr check_result \<Rightarrow>
                  (let answer' = (if flags_hallucination check_result
                                  then answer @ DISCLAIMER else answer);
                       final_response =
                         enhance_response_with_sources answer' (map DocumentChunk valid_docs)
                   in Inr [''answer'' \<mapsto> Str final_response,
                           ''raw_answer'' \<mapsto> Str answer',
                           ''sources'' \<mapsto> Docs valid_docs,
                           ''expanded_query'' \<mapsto> Str expanded_query,
                           ''status'' \<mapsto> Str ''success''])))))))"


section \<open>Example data\<close>

text \<open>
  Three retrieved chunks: two from the same file and one from another. The scores of the
  examples are natural numbers.
\<close>

definition doc_about :: "nat document" where
  "doc_about = \<lparr>page_content = ''CURT is the Cairo University Racing Team.'',
                 metadata = \<lparr>source = Some ''docs/about.md'', rerank_score = None\<rparr>\<rparr>"

definition doc_history :: "nat document" where
  "doc_history = \<lparr>page_content = ''The team builds a formula student car each year.'',
                   metadata = \<lparr>source = Some ''docs/about.md'', rerank_score = None\<rparr>\<rparr>"

definition doc_faq :: "nat document" where
  "doc_faq = \<lparr>page_content = ''Students of any faculty can apply in September.'',
               metadata = \<lparr>source = Some ''docs/faq.md'', rerank_score = None\<rparr>\<rparr>"


text \<open>
  Collaborators for the examples. With \<open>failing\<close> every external call raises. With
  \<open>rerank_down\<close> the retrieval returns six chunks, the reranking raises an \<open>Exception\<close>
  and the other calls return; \<open>rerank_interrupted\<close> is the same but for the reranking,
  which raises \<open>KeyboardInterrupt\<close>. With \<open>flagging\<close> the reranking returns the third of
  three chunks and the verification answers with the hallucination marker.
\<close>

definition failing :: "nat collaborators" where
  "failing =
     \<lparr>expansion_chain = (\<lambda>query. Inl (Exn ''expansion unavailable'')),
      retriever = (\<lambda>query. Inl (Exn ''vector store unavailable'')),
      cohere_rerank = (\<lambda>query texts top_n. Inl (Exn ''rerank unavailable'')),
      rag_chain = (\<lambda>context question history. Inl (Exn ''generation unavailable'')),
      hallucination_chain = (\<lambda>context answer. Inl (Exn ''verification unavailable''))\<rparr>"



definition flagging :: "nat collaborators" where
  "flagging =
     \<lparr>expansion_chain = (\<lambda>query. Inr (query @ '' Cairo University Racing Team'')),
      retriever = (\<lambda>query. Inr [doc_about, doc_history, doc_faq]),
      cohere_rerank = (\<lambda>query texts top_n. Inr [\<lparr>index = 2, relevance_score = 9\<rparr>]),
      rag_chain = (\<lambda>context question history. Inr ''CURT was founded in 1999.''),
      hallucination_chain =
        (\<lambda>context answer. Inr ''HALLUCINATION: the year is not in the context'')\<rparr>"


text \<open>
  The collaborators \<open>flagging\<close> with another reply of the verification: the marker in
  lower case, after a no-break space.
\<close>

definition flagging_nbsp :: "nat collaborators" where
  "flagging_nbsp =
     flagging\<lparr>hallucination_chain :=
       (\<lambda>context answer. Inr (CHR 0xA0 # ''hallucination: the year is not in the context''))\<rparr>"


section \<open>The memory window returns a suffix of the transcript\<close>

lemma py_slice_from_neg:
  "0 < m \<Longrightarrow> py_slice_from (- m) xs = drop (length xs - nat m) xs"
  by (auto simp: py_slice_from_def Let_def max_def intro: arg_cong [where f = "\<lambda>k. drop k xs"])

lemma py_slice_from_pos: "0 \<le> m \<Longrightarrow> py_slice_from m xs = drop (nat m) xs"
  by (simp add: py_slice_from_def Let_def min_def)

lemma get_recent_history_drop:
  "1 \<le> window_size self \<Longrightarrow>
   get_recent_history self T = drop (length T - nat (2 * window_size self)) T"
  by (simp add: get_recent_history_def Let_def py_slice_from_neg mult.commute)

text \<open>
  A window of zero pairs does not give the empty history: \<open>full_history[-0:]\<close> is the
  whole transcript. A negative window drops messages from the front.
\<close>

lemma get_recent_history_window_0:
  "get_recent_history \<lparr>window_size = 0\<rparr> T = T"
  by (simp add: get_recent_history_def py_slice_from_def)

lemma get_recent_history_window_neg:
  "window_size self < 0 \<Longrightarrow>
   get_recent_history self T = drop (nat (- (window_size self * 2))) T"
  by (simp add: get_recent_history_def Let_def py_slice_from_pos)

text \<open>
  What the code returns for a window of \<open>N \<ge> 1\<close> pairs: the last \<open>min(len(T), 2N)\<close>
  messages of \<open>T\<close> in their order. The length of that window is even exactly when
  \<open>len(T)\<close> is even or \<open>len(T) \<ge> 2N\<close>, and the number of messages cut off at the front
  is even exactly when \<open>len(T)\<close> is even or \<open>len(T) \<le> 2N\<close>.
\<close>

lemma get_recent_history_suffix:
  assumes "1 \<le> window_size self"
  shows "get_recent_history self T
           = drop (length T - min (length T) (nat (2 * window_size self))) T
       \<and> length (get_recent_history self T) = min (length T) (nat (2 * window_size self))
       \<and> (even (length (get_recent_history self T))
            \<longleftrightarrow> even (length T) \<or> nat (2 * window_size self) \<le> length T)
       \<and> (even (length T - length (get_recent_history self T))
            \<longleftrightarrow> even (length T) \<or> length T \<le> nat (2 * window_size self))"
proof -
  let ?k = "nat (2 * window_size self)"
  have k: "even ?k"
    using assms by (simp add: nat_mult_distrib)
  have eq: "get_recent_history self T = drop (length T - ?k) T"
    using assms by (rule get_recent_history_drop)
  have len: "length (get_recent_history self T) = min (length T) ?k"
    unfolding eq by (simp add: min_def)
  have shape: "get_recent_history self T = drop (length T - min (length T) ?k) T"
    unfolding eq by (simp add: min_def)
  have ev: "even (min (length T) ?k) \<longleftrightarrow> even (length T) \<or> ?k \<le> length T"
    using k by (auto simp: min_def)
  have cut: "even (length T - min (length T) ?k) \<longleftrightarrow> even (length T) \<or> length T \<le> ?k"
    using k by (auto simp: min_def)
  from shape len ev cut show ?thesis by simp
qed

text \<open>
  Claim C1 says that \<open>get_recent_history\<close> returns the last \<open>min(len(T), 2N)\<close> messages and
  that what it returns always has even length and never starts in the middle of a pair;
  the docstrings of the class say the same (complete conversation pairs, never cut
  mid-conversation). The code does not keep this. The transcripts below are what the chat
  front end passes with the default window of five pairs: it adds the user's message to
  the transcript before it asks for the window, so the transcript has odd length. At the
  second question the window is the whole transcript of three messages, which is odd, and
  its last pair has no answer. At the sixth question the transcript has eleven messages,
  the window has the last ten, and the first of them is the assistant's answer to a
  question that was cut off.
\<close>

theorem get_recent_history_incomplete_pairs:
  "get_recent_history \<lparr>window_size = 5\<rparr> [msg_u1, msg_a1, msg_u2] = [msg_u1, msg_a1, msg_u2]
   \<and> \<not> even (length (get_recent_history \<lparr>window_size = 5\<rparr> [msg_u1, msg_a1, msg_u2]))
   \<and> length (get_recent_history \<lparr>window_size = 5\<rparr>
        [msg_u1, msg_a1, msg_u2, msg_a1, msg_u1, msg_a1, msg_u2, msg_a1, msg_u1, msg_a1, msg_u2])
       = 10
   \<and> map (\<lambda>msg. msg ''role'') (get_recent_history \<lparr>window_size = 5\<rparr>
        [msg_u1, msg_a1, msg_u2, msg_a1, msg_u1, msg_a1, msg_u2, msg_a1, msg_u1, msg_a1, msg_u2])
       = [Some ''assistant'', Some ''user'', Some ''assistant'', Some ''user'',
          Some ''assistant'', Some ''user'', Some ''assistant'', Some ''user'',
          Some ''assistant'', Some ''user'']"
  by (simp add: get_recent_history_def py_slice_from_def msg_u1_def msg_a1_def msg_u2_def)


section \<open>Properties of the classifiers, the citations and the pipeline\<close>

lemma startswith_iff: "startswith s p \<longleftrightarrow> (\<exists>r. s = p @ r)"
  by (induction s p rule: startswith.induct) auto

lemma contains_iff: "contains t s \<longleftrightarrow> (\<exists>before after. s = before @ t @ after)"
proof (induction s)
  case Nil
  then show ?case by auto
next
  case (Cons c cs)
  show ?case
  proof
    assume "contains t (c # cs)"
    then consider "startswith (c # cs) t" | "contains t cs" by auto
    then show "\<exists>before after. c # cs = before @ t @ after"
    proof cases
      case 1
      then obtain r where "c # cs = t @ r" by (auto simp: startswith_iff)
      then have "c # cs = [] @ t @ r" by simp
      then show ?thesis by blast
    next
      case 2
      then obtain b a where "cs = b @ t @ a" using Cons.IH by auto
      then have "c # cs = (c # b) @ t @ a" by simp
      then show ?thesis by blast
    qed
  next
    assume "\<exists>before after. c # cs = before @ t @ after"
    then obtain b a where eq: "c # cs = b @ t @ a" by blast
    show "contains t (c # cs)"
    proof (cases b)
      case Nil
      with eq have "startswith (c # cs) t" by (auto simp: startswith_iff)
      then show ?thesis by simp
    next
      case (Cons b0 b')
      with eq have "cs = b' @ t @ a" by simp
      then have "contains t cs" using Cons.IH by blast
      then show ?thesis by simp
    qed
  qed
qed

text \<open>
  Claim C6: for every query, \<open>is_off_topic\<close> is true exactly when the lower-cased query
  contains none of the on-topic terms and contains at least one of the off-topic
  keywords, where "contains" is: the keyword stands in the text as a contiguous block.
  So an on-topic term anywhere in the query makes the result false, whatever off-topic
  keywords are there.
\<close>

theorem is_off_topic_iff:
  "is_off_topic query \<longleftrightarrow>
     (\<forall>t \<in> set on_topic_terms. \<not> (\<exists>before after. lower query = before @ t @ after))
   \<and> (\<exists>k \<in> set off_topic_keywords. \<exists>before after. lower query = before @ k @ after)"
  by (simp add: is_off_topic_def Let_def list_ex_iff contains_iff)

theorem is_off_topic_iff_witness:
  "is_off_topic ''What's the weather?'' \<and> \<not> is_off_topic ''Tell me about CURT's car''"
proof -
  have a: "\<forall>t \<in> set on_topic_terms.
             \<not> (\<exists>before after. lower ''What's the weather?'' = before @ t @ after)"
    unfolding contains_iff [symmetric] by code_simp
  have b: "\<exists>k \<in> set off_topic_keywords.
             \<exists>before after. lower ''What's the weather?'' = before @ k @ after"
    unfolding contains_iff [symmetric] by code_simp
  have c: "\<not> (\<forall>t \<in> set on_topic_terms.
             \<not> (\<exists>before after. lower ''Tell me about CURT's car'' = before @ t @ after))"
    unfolding contains_iff [symmetric] by code_simp
  from a b have "is_off_topic ''What's the weather?''"
    unfolding is_off_topic_iff [of "''What's the weather?''"] by blast
  moreover from c have "\<not> is_off_topic ''Tell me about CURT's car''"
    unfolding is_off_topic_iff [of "''Tell me about CURT's car''"] by blast
  ultimately show ?thesis by blast
qed

text \<open>
  Claim C9: the on-topic test is a substring test with no word boundary. When the
  lower-cased query is \<open>before @ t @ after\<close> for an on-topic term \<open>t\<close> (such as \<open>car\<close>) and
  any texts \<open>before\<close> and \<open>after\<close>, also letters of the same word as in "scary" or
  "carnival", \<open>is_off_topic\<close> is false, whatever off-topic keywords the query has.
\<close>

theorem on_topic_term_overrides:
  assumes "t \<in> set on_topic_terms" and "lower query = before @ t @ after"
  shows "\<not> is_off_topic query"
proof -
  from assms(2) have "contains t (lower query)"
    unfolding contains_iff by blast
  with assms(1) have "list_ex (\<lambda>term. contains term (lower query)) on_topic_terms"
    unfolding list_ex_iff by blast
  then show ?thesis by (simp add: is_off_topic_def Let_def)
qed

theorem on_topic_term_overrides_witness:
  "''car'' \<in> set on_topic_terms
   \<and> lower ''A scary movie at the Carnival'' = ''a s'' @ ''car'' @ ''y movie at the carnival''
   \<and> contains ''movie'' (lower ''A scary movie at the Carnival'')
   \<and> \<not> is_off_topic ''A scary movie at the Carnival''"
proof -
  have m: "''car'' \<in> set on_topic_terms" by (simp add: on_topic_terms_def)
  have l: "lower ''A scary movie at the Carnival'' = ''a s'' @ ''car'' @ ''y movie at the carnival''"
    by code_simp
  have k: "contains ''movie'' (lower ''A scary movie at the Carnival'')" by code_simp
  from m l k on_topic_term_overrides [OF m l] show ?thesis by blast
qed

lemma format_loop_acc: "format_loop acc ms = acc @ format_loop [] ms"
proof (induction ms arbitrary: acc)
  case Nil
  then show ?case by simp
next
  case (Cons m ms)
  have a: "format_loop (acc @ [x]) ms = acc @ x # format_loop [] ms" for x
    using Cons.IH [of "acc @ [x]"] by simp
  have b: "format_loop [x] ms = x # format_loop [] ms" for x
    using Cons.IH [of "[x]"] by simp
  show ?case
    by (simp add: Let_def a b Cons.IH [of acc])
qed

lemma format_chat_history_Nil: "format_chat_history [] = []"
  by (simp add: format_chat_history_def)

lemma format_chat_history_Cons:
  "format_chat_history (m # ms) =
     (if dict_get m ''role'' ''user'' = ''user''
        then HumanMessage (dict_get m ''content'' '''') # format_chat_history ms
      else if dict_get m ''role'' ''user'' = ''assistant''
        then AIMessage (dict_get m ''content'' '''') # format_chat_history ms
      else format_chat_history ms)"
proof -
  have "format_loop [x] ms = x # format_loop [] ms" for x
    using format_loop_acc [of "[x]" ms] by simp
  then show ?thesis
    by (simp add: format_chat_history_def Let_def)
qed

lemma format_chat_history_append:
  "format_chat_history (xs @ ys) = format_chat_history xs @ format_chat_history ys"
  by (induction xs) (simp_all add: format_chat_history_Nil format_chat_history_Cons)

lemma format_chat_history_length: "length (format_chat_history ms) \<le> length ms"
  by (induction ms) (simp_all add: format_chat_history_Nil format_chat_history_Cons)

text \<open>
  Claim C10: a message without the key \<open>role\<close> is kept, as a human message with the
  message's content (the empty text when \<open>content\<close> is absent too), in its place between
  what the messages before it and after it give; a message is dropped exactly when it
  has a role, and that role is neither \<open>user\<close> nor \<open>assistant\<close>; and the output is never
  longer than the input.
\<close>

theorem format_chat_history_roles:
  "(m ''role'' = None \<longrightarrow>
      format_chat_history (pre @ m # post)
        = format_chat_history pre @ HumanMessage (dict_get m ''content'' '''')
            # format_chat_history post)
   \<and> (format_chat_history (pre @ m # post) = format_chat_history pre @ format_chat_history post
        \<longleftrightarrow> (\<exists>r. m ''role'' = Some r \<and> r \<noteq> ''user'' \<and> r \<noteq> ''assistant''))
   \<and> length (format_chat_history ms) \<le> length ms"
proof (intro conjI impI)
  assume "m ''role'' = None"
  then show "format_chat_history (pre @ m # post)
        = format_chat_history pre @ HumanMessage (dict_get m ''content'' '''')
            # format_chat_history post"
    by (simp add: format_chat_history_append format_chat_history_Cons dict_get_def)
next
  show "format_chat_history (pre @ m # post) = format_chat_history pre @ format_chat_history post
        \<longleftrightarrow> (\<exists>r. m ''role'' = Some r \<and> r \<noteq> ''user'' \<and> r \<noteq> ''assistant'')"
    by (cases "m ''role''")
       (simp_all add: format_chat_history_append format_chat_history_Cons dict_get_def)
next
  show "length (format_chat_history ms) \<le> length ms"
    by (rule format_chat_history_length)
qed

theorem format_chat_history_roles_witness:
  "[''content'' \<mapsto> ''Who leads it?''] ''role'' = (None :: string option)
   \<and> format_chat_history
        [msg_u1, [''content'' \<mapsto> ''Who leads it?''],
         [''role'' \<mapsto> ''system'', ''content'' \<mapsto> ''Be brief.''], msg_a1]
       = [HumanMessage ''What is CURT?'', HumanMessage ''Who leads it?'',
          AIMessage ''A racing team.'']"
proof -
  let ?m = "[''content'' \<mapsto> ''Who leads it?''] :: message"
  let ?s = "[''role'' \<mapsto> ''system'', ''content'' \<mapsto> ''Be brief.''] :: message"
  have none: "?m ''role'' = None" by simp
  have kept: "format_chat_history ([msg_u1] @ ?m # [?s, msg_a1])
      = format_chat_history [msg_u1] @ HumanMessage (dict_get ?m ''content'' '''')
          # format_chat_history [?s, msg_a1]"
    using format_chat_history_roles [of ?m "[msg_u1]" "[?s, msg_a1]" "[]"] none by blast
  have some: "\<exists>r. ?s ''role'' = Some r \<and> r \<noteq> ''user'' \<and> r \<noteq> ''assistant''" by simp
  have dropped: "format_chat_history ([] @ ?s # [msg_a1])
      = format_chat_history [] @ format_chat_history [msg_a1]"
    using format_chat_history_roles [of ?s "[]" "[msg_a1]" "[]"] some by blast
  have u: "format_chat_history [msg_u1] = [HumanMessage ''What is CURT?'']"
    by (simp add: format_chat_history_Cons format_chat_history_Nil dict_get_def msg_u1_def)
  have a: "format_chat_history [msg_a1] = [AIMessage ''A racing team.'']"
    by (simp add: format_chat_history_Cons format_chat_history_Nil dict_get_def msg_a1_def)
  from kept dropped u a none show ?thesis
    by (simp add: format_chat_history_Nil dict_get_def)
qed

lemma sources_loop_lines:
  "sources_loop (Suc (length pre)) cs (get_source ` set pre) acc =
     acc @ concat (map (\<lambda>i. digits (i + 1) @ ''. '' @ get_source ((pre @ cs) ! i) @ ''\<newline>'')
       (filter (\<lambda>i. get_source ((pre @ cs) ! i) \<notin> get_source ` set (take i (pre @ cs)))
          [length pre..<length pre + length cs]))"
proof (induction cs arbitrary: pre acc)
  case Nil
  then show ?case by simp
next
  case (Cons c cs)
  let ?n = "length pre"
  let ?all = "pre @ c # cs"
  let ?line = "\<lambda>i. digits (i + 1) @ ''. '' @ get_source (?all ! i) @ ''\<newline>''"
  let ?first = "\<lambda>i. get_source (?all ! i) \<notin> get_source ` set (take i ?all)"
  let ?rest = "concat (map ?line (filter ?first [Suc ?n..<Suc ?n + length cs]))"
  have "[?n..<?n + length (c # cs)] = ?n # [Suc ?n..<?n + length (c # cs)]"
    by (rule upt_conv_Cons) simp
  moreover have "?n + length (c # cs) = Suc ?n + length cs"
    by simp
  ultimately have upt: "[?n..<?n + length (c # cs)] = ?n # [Suc ?n..<Suc ?n + length cs]"
    by (simp only:)
  have here: "?all ! ?n = c" "take ?n ?all = pre"
    by simp_all
  have ih: "sources_loop (Suc (Suc ?n)) cs (get_source ` set (pre @ [c])) a = a @ ?rest" for a
    using Cons.IH [of "pre @ [c]" a] by simp
  show ?case
  proof (cases "get_source c \<in> get_source ` set pre")
    case True
    then have seen: "get_source ` set (pre @ [c]) = get_source ` set pre"
      by auto
    have "sources_loop (Suc ?n) (c # cs) (get_source ` set pre) acc
            = sources_loop (Suc (Suc ?n)) cs (get_source ` set pre) acc"
      using True by (simp add: Let_def)
    also have "\<dots> = acc @ ?rest"
      using ih [of acc] by (simp only: seen)
    also have "?rest = concat (map ?line (filter ?first [?n..<?n + length (c # cs)]))"
      using True by (simp only: upt filter.simps here) simp
    finally show ?thesis .
  next
    case False
    then have seen: "get_source ` set (pre @ [c]) = insert (get_source c) (get_source ` set pre)"
      by auto
    have "sources_loop (Suc ?n) (c # cs) (get_source ` set pre) acc
            = sources_loop (Suc (Suc ?n)) cs (insert (get_source c) (get_source ` set pre))
                (acc @ digits (Suc ?n) @ ''. '' @ get_source c @ ''\<newline>'')"
      using False by (simp add: Let_def)
    also have "\<dots> = (acc @ digits (Suc ?n) @ ''. '' @ get_source c @ ''\<newline>'') @ ?rest"
      using ih [of "acc @ digits (Suc ?n) @ ''. '' @ get_source c @ ''\<newline>''"]
      by (simp only: seen)
    also have "\<dots> = acc @ concat (map ?line (filter ?first [?n..<?n + length (c # cs)]))"
      using False by (simp only: upt filter.simps here) simp
    finally show ?thesis .
  qed
qed

lemma format_sources_lines:
  assumes "chunks \<noteq> []"
  shows "format_sources chunks =
     SOURCES_HEADER @ concat (map (\<lambda>i. digits (i + 1) @ ''. '' @ get_source (chunks ! i) @ ''\<newline>'')
       (filter (\<lambda>i. get_source (chunks ! i) \<notin> get_source ` set (take i chunks))
          [0..<length chunks]))"
  using assms sources_loop_lines [of "[]" chunks SOURCES_HEADER]
  by (simp add: format_sources_def)

lemma cited_first:
  "i \<in> set (cited chunks) \<longleftrightarrow>
     i < length chunks \<and> (\<forall>j<i. get_source (chunks ! j) \<noteq> get_source (chunks ! i))"
proof -
  have "get_source (chunks ! i) \<in> get_source ` set (take i chunks)
          \<longleftrightarrow> (\<exists>j<i. get_source (chunks ! j) = get_source (chunks ! i))"
    if "i < length chunks"
  proof
    assume "get_source (chunks ! i) \<in> get_source ` set (take i chunks)"
    then obtain c where c: "c \<in> set (take i chunks)" "get_source c = get_source (chunks ! i)"
      by auto
    from c(1) obtain j where "j < length (take i chunks)" "take i chunks ! j = c"
      by (auto simp: in_set_conv_nth)
    with that c(2) show "\<exists>j<i. get_source (chunks ! j) = get_source (chunks ! i)"
      by auto
  next
    assume "\<exists>j<i. get_source (chunks ! j) = get_source (chunks ! i)"
    then obtain j where j: "j < i" "get_source (chunks ! j) = get_source (chunks ! i)"
      by blast
    with that have "chunks ! j \<in> set (take i chunks)"
      by (auto simp: in_set_conv_nth intro!: exI [of _ j])
    with j(2) show "get_source (chunks ! i) \<in> get_source ` set (take i chunks)"
      by (metis imageI)
  qed
  then show ?thesis
    by (auto simp: cited_def)
qed

lemma cited_sorted: "sorted_wrt (<) (cited chunks)"
  unfolding cited_def by (rule sorted_wrt_filter) simp

lemma cited_distinct_sources: "distinct (map (\<lambda>i. get_source (chunks ! i)) (cited chunks))"
proof -
  have d: "distinct (cited chunks)"
    by (simp add: cited_def)
  have "inj_on (\<lambda>i. get_source (chunks ! i)) (set (cited chunks))"
  proof (rule inj_onI)
    fix i j
    assume i: "i \<in> set (cited chunks)" and j: "j \<in> set (cited chunks)"
      and eq: "get_source (chunks ! i) = get_source (chunks ! j)"
    show "i = j"
    proof (rule ccontr)
      assume "i \<noteq> j"
      then consider "i < j" | "j < i" by arith
      then show False
      proof cases
        case 1
        with j eq show False by (auto simp: cited_first)
      next
        case 2
        with i eq show False by (auto simp: cited_first)
      qed
    qed
  qed
  with d show ?thesis by (simp add: distinct_map)
qed

lemma cited_all_sources:
  "set (map (\<lambda>i. get_source (chunks ! i)) (cited chunks)) = get_source ` set chunks"
proof (intro equalityI subsetI)
  fix s
  assume "s \<in> set (map (\<lambda>i. get_source (chunks ! i)) (cited chunks))"
  then obtain i where "i \<in> set (cited chunks)" "s = get_source (chunks ! i)"
    by auto
  then show "s \<in> get_source ` set chunks"
    by (auto simp: cited_first)
next
  fix s
  assume "s \<in> get_source ` set chunks"
  then obtain k where k: "k < length chunks" "get_source (chunks ! k) = s"
    by (auto simp: in_set_conv_nth)
  define i where "i = (LEAST k. k < length chunks \<and> get_source (chunks ! k) = s)"
  have i: "i < length chunks \<and> get_source (chunks ! i) = s"
    unfolding i_def using k
    by (intro LeastI [of "\<lambda>k. k < length chunks \<and> get_source (chunks ! k) = s" k]) simp
  have least: "\<not> (j < length chunks \<and> get_source (chunks ! j) = s)" if "j < i" for j
    using that unfolding i_def by (rule not_less_Least)
  have "i \<in> set (cited chunks)"
    unfolding cited_first using i least by (metis less_trans)
  with i show "s \<in> set (map (\<lambda>i. get_source (chunks ! i)) (cited chunks))"
    by force
qed


text \<open>
  Claim C7: \<open>format_sources\<close> of no chunks is the empty text. For a non-empty list the
  output is the header followed by one line per position in \<open>cited chunks\<close>, in that
  order; these positions are increasing, each is the first position of its source
  identifier, their identifiers are pairwise different, and every identifier of the
  input is among them. So each distinct identifier has exactly one line, at its first
  occurrence, in the order of the chunks.
\<close>

theorem format_sources_dedup:
  "format_sources ([] :: 's chunk list) = []
   \<and> (chunks \<noteq> [] \<longrightarrow>
        format_sources chunks =
          SOURCES_HEADER @ concat (map (\<lambda>i. digits (i + 1) @ ''. '' @ get_source (chunks ! i) @ ''\<newline>'')
            (cited chunks)))
   \<and> sorted_wrt (<) (cited chunks)
   \<and> (\<forall>i \<in> set (cited chunks).
          i < length chunks \<and> (\<forall>j<i. get_source (chunks ! j) \<noteq> get_source (chunks ! i)))
   \<and> distinct (map (\<lambda>i. get_source (chunks ! i)) (cited chunks))
   \<and> set (map (\<lambda>i. get_source (chunks ! i)) (cited chunks)) = get_source ` set chunks"
proof (intro conjI impI ballI)
  show "format_sources ([] :: 's chunk list) = []"
    by (simp add: format_sources_def)
next
  assume "chunks \<noteq> []"
  then show "format_sources chunks =
      SOURCES_HEADER @ concat (map (\<lambda>i. digits (i + 1) @ ''. '' @ get_source (chunks ! i) @ ''\<newline>'')
        (cited chunks))"
    unfolding cited_def by (rule format_sources_lines)
next
  show "sorted_wrt (<) (cited chunks)"
    by (rule cited_sorted)
next
  fix i
  assume "i \<in> set (cited chunks)"
  then show "i < length chunks"
    and "\<forall>j<i. get_source (chunks ! j) \<noteq> get_source (chunks ! i)"
    by (simp_all add: cited_first)
next
  show "distinct (map (\<lambda>i. get_source (chunks ! i)) (cited chunks))"
    by (rule cited_distinct_sources)
next
  show "set (map (\<lambda>i. get_source (chunks ! i)) (cited chunks)) = get_source ` set chunks"
    by (rule cited_all_sources)
qed

theorem format_sources_dedup_witness:
  "[DocumentChunk doc_about, DocumentChunk doc_history] \<noteq> []
   \<and> get_source (DocumentChunk doc_about) = get_source (DocumentChunk doc_history)
   \<and> cited [DocumentChunk doc_about, DocumentChunk doc_history] = [0]
   \<and> format_sources [DocumentChunk doc_about, DocumentChunk doc_history]
       = ''\<newline>\<newline>**Sources:**\<newline>1. docs/about.md\<newline>''"
proof -
  let ?chunks = "[DocumentChunk doc_about, DocumentChunk doc_history]"
  have ne: "?chunks \<noteq> []" by simp
  have same: "get_source (DocumentChunk doc_about) = get_source (DocumentChunk doc_history)"
    by code_simp
  have pos: "cited ?chunks = [0]"
    by code_simp
  have "format_sources ?chunks =
      SOURCES_HEADER @ concat (map (\<lambda>i. digits (i + 1) @ ''. '' @ get_source (?chunks ! i) @ ''\<newline>'')
        (cited ?chunks))"
    using format_sources_dedup [of ?chunks] ne by blast
  also have "\<dots> = ''\<newline>\<newline>**Sources:**\<newline>1. docs/about.md\<newline>''"
    unfolding pos by code_simp
  finally show ?thesis
    using ne same pos by blast
qed

text \<open>
  Claim C8: the number at the start of a citation line is the 1-based position of the
  line's chunk in the input list, not the count of the lines written so far. The lines
  are those of the positions \<open>i\<close> (0-based) whose identifier is not the identifier of a
  chunk before \<open>i\<close>, and the line of position \<open>i\<close> starts with \<open>i + 1\<close>; so a repeated
  identifier leaves a gap in the numbers.
\<close>

theorem format_sources_numbering:
  assumes "chunks \<noteq> []"
  shows "format_sources chunks =
     SOURCES_HEADER @ concat (map (\<lambda>i. digits (i + 1) @ ''. '' @ get_source (chunks ! i) @ ''\<newline>'')
       (filter (\<lambda>i. get_source (chunks ! i) \<notin> get_source ` set (take i chunks))
          [0..<length chunks]))"
  using assms by (rule format_sources_lines)

theorem format_sources_numbering_witness:
  "[DocumentChunk doc_about, DocumentChunk doc_history, DocumentChunk doc_faq] \<noteq> []
   \<and> map get_source [DocumentChunk doc_about, DocumentChunk doc_history, DocumentChunk doc_faq]
       = [''docs/about.md'', ''docs/about.md'', ''docs/faq.md'']
   \<and> format_sources [DocumentChunk doc_about, DocumentChunk doc_history, DocumentChunk doc_faq]
       = ''\<newline>\<newline>**Sources:**\<newline>1. docs/about.md\<newline>3. docs/faq.md\<newline>''"
proof -
  let ?chunks = "[DocumentChunk doc_about, DocumentChunk doc_history, DocumentChunk doc_faq]"
  have ne: "?chunks \<noteq> []" by simp
  have srcs: "map get_source ?chunks = [''docs/about.md'', ''docs/about.md'', ''docs/faq.md'']"
    by code_simp
  have "format_sources ?chunks
      = ''\<newline>\<newline>**Sources:**\<newline>1. docs/about.md\<newline>3. docs/faq.md\<newline>''"
    unfolding format_sources_numbering [OF ne] by code_simp
  with ne srcs show ?thesis by blast
qed

lemma contains_middle: "contains t (before @ t @ after)"
  unfolding contains_iff by blast

lemma contains_enhanced:
  "contains t (enhance_response_with_sources (draft @ t) chunks)"
proof (cases "format_sources chunks = []")
  case True
  then show ?thesis
    using contains_middle [of t draft "[]"] by (simp add: enhance_response_with_sources_def)
next
  case False
  then show ?thesis
    using contains_middle [of t draft "''\<newline>'' @ format_sources chunks"]
    by (simp add: enhance_response_with_sources_def)
qed



lemma rerank_with_cohere_raises_only:
  assumes "rerank_with_cohere self query documents top_n = Inl e"
  shows "documents \<noteq> [] \<and> (\<exists>msg. e = BaseExn msg)
       \<and> cohere_rerank self query (map page_content documents) top_n = Inl e"
  using assms unfolding rerank_with_cohere_def Let_def
  by (auto split: if_splits sum.splits exn.splits prod.splits option.splits)

text \<open>
  Claim C5: when \<open>is_greeting query\<close> holds, \<open>run\<close> returns the dict with the canned
  greeting as answer, no sources and the status \<open>greeting\<close>, for all collaborators and
  every chat history; so two runs on the query agree whatever their collaborators do,
  also when every external call would raise.
\<close>

theorem run_greeting:
  assumes "is_greeting query"
  shows "run self query chat_history
           = Inr [''answer'' \<mapsto> Str GREETING_RESPONSE, ''sources'' \<mapsto> Docs [],
                  ''status'' \<mapsto> Str ''greeting'']
       \<and> run self query chat_history = run self' query chat_history'"
  using assms by (simp add: run_def)

theorem run_greeting_witness:
  "is_greeting ''hi''
   \<and> run failing ''hi'' [msg_u1, msg_a1]
       = Inr [''answer'' \<mapsto> Str GREETING_RESPONSE, ''sources'' \<mapsto> Docs [],
              ''status'' \<mapsto> Str ''greeting'']
   \<and> run failing ''hi'' [msg_u1, msg_a1] = run flagging ''hi'' []
   \<and> is_greeting (CHR 0x85 # ''Hello there'' @ [CHR 0xA0])
   \<and> run failing (CHR 0x85 # ''Hello there'' @ [CHR 0xA0]) []
       = Inr [''answer'' \<mapsto> Str GREETING_RESPONSE, ''sources'' \<mapsto> Docs [],
              ''status'' \<mapsto> Str ''greeting'']"
proof -
  have hi: "is_greeting ''hi''" by code_simp
  have hello: "is_greeting (CHR 0x85 # ''Hello there'' @ [CHR 0xA0])" by code_simp
  from hi hello
    run_greeting [OF hi, of failing "[msg_u1, msg_a1]" flagging "[]"]
    run_greeting [OF hello, of failing "[]" failing "[]"]
  show ?thesis by blast
qed




lemma run_returns_cases:
  assumes "run self query chat_history = Inr result"
  shows "result = [''answer'' \<mapsto> Str GREETING_RESPONSE, ''sources'' \<mapsto> Docs [],
                   ''status'' \<mapsto> Str ''greeting'']
       \<or> result = [''answer'' \<mapsto> Str OFF_TOPIC_RESPONSE, ''sources'' \<mapsto> Docs [],
                     ''status'' \<mapsto> Str ''off_topic'']
       \<or> result = [''answer'' \<mapsto> Str NO_CONTEXT_RESPONSE, ''sources'' \<mapsto> Docs [],
                     ''status'' \<mapsto> Str ''no_docs'']
       \<or> (\<exists>final_response answer valid_docs expanded_query.
             result = [''answer'' \<mapsto> Str final_response, ''raw_answer'' \<mapsto> Str answer,
                       ''sources'' \<mapsto> Docs valid_docs,
                       ''expanded_query'' \<mapsto> Str expanded_query,
                       ''status'' \<mapsto> Str ''success''])"
  using assms unfolding run_def Let_def
  by (simp split: if_splits sum.splits) blast+

text \<open>
  A run that does not return ends with what one of its own calls raised: the call of the
  expansion on the query; or the call of the retrieval on the expanded query; or the call
  of the reranking on the texts of the candidates, when that is not an \<open>Exception\<close>; or
  the call of the generation on the context of the reranked documents, the query and the
  formatted history; or the call of the verification on that context and the draft.
\<close>

lemma run_raises_cases:
  assumes "run self query chat_history = Inl e"
  shows "\<not> is_greeting query \<and> \<not> is_off_topic query
       \<and> (expansion_chain self query = Inl e
          \<or> (\<exists>expanded_query. expansion_chain self query = Inr expanded_query
               \<and> (retriever self expanded_query = Inl e
                  \<or> (\<exists>raw_docs. retriever self expanded_query = Inr raw_docs \<and> raw_docs \<noteq> []
                       \<and> ((\<exists>msg. e = BaseExn msg)
                             \<and> cohere_rerank self query (map page_content raw_docs) 5 = Inl e
                          \<or> (\<exists>valid_docs. rerank_with_cohere self query raw_docs 5 = Inr valid_docs
                               \<and> (rag_chain self
                                     (join ''\<newline>\<newline>'' (map page_content valid_docs)) query
                                     (format_chat_history chat_history) = Inl e
                                  \<or> (\<exists>answer.
                                       rag_chain self
                                         (join ''\<newline>\<newline>'' (map page_content valid_docs)) query
                                         (format_chat_history chat_history) = Inr answer
                                       \<and> hallucination_chain self
                                           (join ''\<newline>\<newline>'' (map page_content valid_docs))
                                           answer = Inl e))))))))"
proof -
  from assms have g: "\<not> is_greeting query" and o: "\<not> is_off_topic query"
    by (auto simp: run_def split: if_splits)
  show ?thesis
  proof (cases "expansion_chain self query")
    case (Inl e1)
    with assms g o show ?thesis by (simp add: run_def)
  next
    case x: (Inr expanded_query)
    show ?thesis
    proof (cases "retriever self expanded_query")
      case (Inl e2)
      with assms g o x show ?thesis by (simp add: run_def)
    next
      case r: (Inr raw_docs)
      with assms g o x have ne: "raw_docs \<noteq> []"
        by (auto simp: run_def)
      show ?thesis
      proof (cases "rerank_with_cohere self query raw_docs 5")
        case (Inl e3)
        with assms g o x r ne have "e3 = e" by (simp add: run_def)
        with Inl rerank_with_cohere_raises_only [of self query raw_docs 5 e]
        have "(\<exists>msg. e = BaseExn msg)
              \<and> cohere_rerank self query (map page_content raw_docs) 5 = Inl e"
          by simp
        with g o x r ne show ?thesis by simp
      next
        case v: (Inr valid_docs)
        let ?ctx = "join ''\<newline>\<newline>'' (map page_content valid_docs)"
        show ?thesis
        proof (cases "rag_chain self ?ctx query (format_chat_history chat_history)")
          case (Inl e4)
          with assms g o x r ne v have "e4 = e" by (simp add: run_def Let_def)
          with Inl g o x r ne v show ?thesis by simp
        next
          case a: (Inr answer)
          show ?thesis
          proof (cases "hallucination_chain self ?ctx answer")
            case (Inl e5)
            with assms g o x r ne v a have "e5 = e" by (simp add: run_def Let_def)
            with Inl g o x r ne v a show ?thesis by simp
          next
            case (Inr check_result)
            with assms g o x r ne v a show ?thesis by (simp add: run_def Let_def)
          qed
        qed
      qed
    qed
  qed
qed


text \<open>
  Claim C3, as the code has it: a run that returns gives a dict with a text under
  \<open>answer\<close>, a list of documents under \<open>sources\<close> and, under \<open>status\<close>, one of
  \<open>greeting\<close>, \<open>off_topic\<close>, \<open>no_docs\<close> and \<open>success\<close>. The keys \<open>raw_answer\<close> and
  \<open>expanded_query\<close> are there exactly when the status is \<open>success\<close>: the three
  short-circuits return the keys \<open>answer\<close>, \<open>sources\<close> and \<open>status\<close> only. A run that does
  not return is on a query that is neither a greeting nor off topic, and it ends with
  what one of its own calls raised: the expansion on the query, the retrieval on the
  expanded query, the reranking on the candidates' texts when the raise is not an
  \<open>Exception\<close>, the generation on the context of the reranked documents, or the
  verification on that context and the draft.
\<close>

theorem run_result_shape:
  "(run self query chat_history = Inr result \<longrightarrow>
      (\<exists>answer. result ''answer'' = Some (Str answer))
    \<and> (\<exists>docs. result ''sources'' = Some (Docs docs))
    \<and> (\<exists>status. result ''status'' = Some (Str status)
          \<and> status \<in> {''greeting'', ''off_topic'', ''no_docs'', ''success''}
          \<and> dom result =
               (if status = ''success''
                then {''answer'', ''raw_answer'', ''sources'', ''expanded_query'', ''status''}
                else {''answer'', ''sources'', ''status''})))
   \<and> (run self query chat_history = Inl e \<longrightarrow>
        \<not> is_greeting query \<and> \<not> is_off_topic query
       \<and> (expansion_chain self query = Inl e
          \<or> (\<exists>expanded_query. expansion_chain self query = Inr expanded_query
               \<and> (retriever self expanded_query = Inl e
                  \<or> (\<exists>raw_docs. retriever self expanded_query = Inr raw_docs \<and> raw_docs \<noteq> []
                       \<and> ((\<exists>msg. e = BaseExn msg)
                             \<and> cohere_rerank self query (map page_content raw_docs) 5 = Inl e
                          \<or> (\<exists>valid_docs. rerank_with_cohere self query raw_docs 5 = Inr valid_docs
                               \<and> (rag_chain self
                                     (join ''\<newline>\<newline>'' (map page_content valid_docs)) query
                                     (format_chat_history chat_history) = Inl e
                                  \<or> (\<exists>answer.
                                       rag_chain self
                                         (join ''\<newline>\<newline>'' (map page_content valid_docs)) query
                                         (format_chat_history chat_history) = Inr answer
                                       \<and> hallucination_chain self
                                           (join ''\<newline>\<newline>'' (map page_content valid_docs))
                                           answer = Inl e)))))))))"
proof (intro conjI impI)
  assume r: "run self query chat_history = Inr result"
  from run_returns_cases [OF r]
  consider
    (greeting) "result = [''answer'' \<mapsto> Str GREETING_RESPONSE, ''sources'' \<mapsto> Docs [],
                          ''status'' \<mapsto> Str ''greeting'']"
  | (off_topic) "result = [''answer'' \<mapsto> Str OFF_TOPIC_RESPONSE, ''sources'' \<mapsto> Docs [],
                           ''status'' \<mapsto> Str ''off_topic'']"
  | (no_docs) "result = [''answer'' \<mapsto> Str NO_CONTEXT_RESPONSE, ''sources'' \<mapsto> Docs [],
                         ''status'' \<mapsto> Str ''no_docs'']"
  | (success) final_response answer valid_docs expanded_query where
      "result = [''answer'' \<mapsto> Str final_response, ''raw_answer'' \<mapsto> Str answer,
                 ''sources'' \<mapsto> Docs valid_docs, ''expanded_query'' \<mapsto> Str expanded_query,
                 ''status'' \<mapsto> Str ''success'']"
    by blast
  then have "(\<exists>answer. result ''answer'' = Some (Str answer))
    \<and> (\<exists>docs. result ''sources'' = Some (Docs docs))
    \<and> (\<exists>status. result ''status'' = Some (Str status)
          \<and> status \<in> {''greeting'', ''off_topic'', ''no_docs'', ''success''}
          \<and> dom result =
               (if status = ''success''
                then {''answer'', ''raw_answer'', ''sources'', ''expanded_query'', ''status''}
                else {''answer'', ''sources'', ''status''}))"
  proof cases
    case greeting
    then show ?thesis by auto
  next
    case off_topic
    then show ?thesis by auto
  next
    case no_docs
    then show ?thesis by auto
  next
    case success
    then show ?thesis by auto
  qed
  then show "\<exists>answer. result ''answer'' = Some (Str answer)"
    and "\<exists>docs. result ''sources'' = Some (Docs docs)"
    and "\<exists>status. result ''status'' = Some (Str status)
          \<and> status \<in> {''greeting'', ''off_topic'', ''no_docs'', ''success''}
          \<and> dom result =
               (if status = ''success''
                then {''answer'', ''raw_answer'', ''sources'', ''expanded_query'', ''status''}
                else {''answer'', ''sources'', ''status''})"
    by blast+
next
  assume "run self query chat_history = Inl e"
  from run_raises_cases [OF this]
  show "\<not> is_greeting query" and "\<not> is_off_topic query"
    and "expansion_chain self query = Inl e
          \<or> (\<exists>expanded_query. expansion_chain self query = Inr expanded_query
               \<and> (retriever self expanded_query = Inl e
                  \<or> (\<exists>raw_docs. retriever self expanded_query = Inr raw_docs \<and> raw_docs \<noteq> []
                       \<and> ((\<exists>msg. e = BaseExn msg)
                             \<and> cohere_rerank self query (map page_content raw_docs) 5 = Inl e
                          \<or> (\<exists>valid_docs. rerank_with_cohere self query raw_docs 5 = Inr valid_docs
                               \<and> (rag_chain self
                                     (join ''\<newline>\<newline>'' (map page_content valid_docs)) query
                                     (format_chat_history chat_history) = Inl e
                                  \<or> (\<exists>answer.
                                       rag_chain self
                                         (join ''\<newline>\<newline>'' (map page_content valid_docs)) query
                                         (format_chat_history chat_history) = Inr answer
                                       \<and> hallucination_chain self
                                           (join ''\<newline>\<newline>'' (map page_content valid_docs))
                                           answer = Inl e)))))))"
    by blast+
qed

theorem run_result_shape_witness:
  "map_sum id (\<lambda>result. result ''status'') (run flagging ''When was CURT founded?'' [msg_u1, msg_a1])
     = Inr (Some (Str ''success''))
   \<and> map_sum id dom (run flagging ''When was CURT founded?'' [msg_u1, msg_a1])
       = Inr {''answer'', ''raw_answer'', ''sources'', ''expanded_query'', ''status''}
   \<and> map_sum id (\<lambda>result. result ''status'') (run failing ''Hello, who are you?'' [])
       = Inr (Some (Str ''greeting''))
   \<and> map_sum id dom (run failing ''Hello, who are you?'' [])
       = Inr {''answer'', ''sources'', ''status''}
   \<and> run failing ''When was CURT founded?'' [] = Inl (Exn ''expansion unavailable'')
   \<and> expansion_chain failing ''When was CURT founded?'' = Inl (Exn ''expansion unavailable'')"
proof -
  let ?q = "''When was CURT founded?''"
  let ?h = "[msg_u1, msg_a1]"
  have s1: "map_sum id (\<lambda>result. result ''status'') (run flagging ?q ?h)
              = Inr (Some (Str ''success''))"
    by code_simp
  then obtain r1 where r1: "run flagging ?q ?h = Inr r1" "r1 ''status'' = Some (Str ''success'')"
    by (cases "run flagging ?q ?h") auto
  have d1: "dom r1 = {''answer'', ''raw_answer'', ''sources'', ''expanded_query'', ''status''}"
    using run_result_shape [of flagging ?q ?h r1] r1 by auto
  have s2: "map_sum id (\<lambda>result. result ''status'') (run failing ''Hello, who are you?'' [])
              = Inr (Some (Str ''greeting''))"
    by code_simp
  then obtain r2 where r2: "run failing ''Hello, who are you?'' [] = Inr r2"
      "r2 ''status'' = Some (Str ''greeting'')"
    by (cases "run failing ''Hello, who are you?'' []") auto
  have d2: "dom r2 = {''answer'', ''sources'', ''status''}"
    using run_result_shape [of failing "''Hello, who are you?''" "[]" r2] r2 by auto
  have "\<not> is_greeting ?q" and "\<not> is_off_topic ?q"
    by code_simp+
  then have s3: "run failing ?q [] = Inl (Exn ''expansion unavailable'')"
    by (simp add: run_def failing_def)
  have s4: "expansion_chain failing ?q = Inl (Exn ''expansion unavailable'')"
    by (simp add: failing_def)
  from s1 s2 s3 s4 r1(1) d1 r2(1) d2 show ?thesis by simp
qed

text \<open>
  The claim as stated fails on the greeting path: the run on "hi" returns, and its
  result has neither \<open>raw_answer\<close> nor \<open>expanded_query\<close>.
\<close>

theorem run_greeting_fields_counterexample:
  "map_sum id (\<lambda>result. (result ''status'', result ''raw_answer'', result ''expanded_query''))
     (run failing ''hi'' [])
     = Inr (Some (Str ''greeting''), None, None)"
  by code_simp

text \<open>
  Claim C2, as the code has it: take a run that reaches the verification (the query is
  neither a greeting nor off topic, the expansion returns, the retrieval returns at least
  one candidate, the reranking step returns the documents, the run's call of the
  generation returns the draft answer) in which the verifier's response is flagged, that
  is, begins with \<open>HALLUCINATION\<close> once stripped and put in upper case. The run returns;
  \<open>raw_answer\<close> is the draft followed by the disclaimer, and \<open>answer\<close> is that text with
  the citation block appended. Both contain the disclaimer: the disclaimer is appended to
  the draft before \<open>raw_answer\<close> is taken from it.
\<close>

theorem run_flagged_disclaimer:
  assumes "\<not> is_greeting query" and "\<not> is_off_topic query"
    and "expansion_chain self query = Inr expanded_query"
    and "retriever self expanded_query = Inr raw_docs" and "raw_docs \<noteq> []"
    and "rerank_with_cohere self query raw_docs 5 = Inr valid_docs"
    and "context = join ''\<newline>\<newline>'' (map page_content valid_docs)"
    and "rag_chain self context query (format_chat_history chat_history) = Inr draft"
    and "hallucination_chain self context draft = Inr check_result"
    and "flags_hallucination check_result"
  shows "\<exists>result. run self query chat_history = Inr result
           \<and> result ''raw_answer'' = Some (Str (draft @ DISCLAIMER))
           \<and> result ''answer'' =
                 Some (Str (enhance_response_with_sources (draft @ DISCLAIMER)
                              (map DocumentChunk valid_docs)))
           \<and> contains DISCLAIMER (draft @ DISCLAIMER)
           \<and> contains DISCLAIMER
                 (enhance_response_with_sources (draft @ DISCLAIMER)
                    (map DocumentChunk valid_docs))"
proof -
  have raw: "contains DISCLAIMER (draft @ DISCLAIMER)"
    using contains_middle [of DISCLAIMER draft "[]"] by simp
  have final: "contains DISCLAIMER
      (enhance_response_with_sources (draft @ DISCLAIMER) (map DocumentChunk valid_docs))"
    by (rule contains_enhanced)
  have gen: "rag_chain self (join ''\<newline>\<newline>'' (map page_content valid_docs))
      query (format_chat_history chat_history) = Inr draft"
    using assms(7,8) by simp
  have ver: "hallucination_chain self (join ''\<newline>\<newline>'' (map page_content valid_docs))
      draft = Inr check_result"
    using assms(7,9) by simp
  have "run self query chat_history =
      Inr [''answer'' \<mapsto> Str (enhance_response_with_sources (draft @ DISCLAIMER)
                                    (map DocumentChunk valid_docs)),
           ''raw_answer'' \<mapsto> Str (draft @ DISCLAIMER),
           ''sources'' \<mapsto> Docs valid_docs,
           ''expanded_query'' \<mapsto> Str expanded_query,
           ''status'' \<mapsto> Str ''success'']"
    using assms(1-5,10) by (simp add: run_def Let_def gen ver assms(6))
  with raw final show ?thesis by simp
qed

theorem run_flagged_disclaimer_witness:
  "\<not> is_greeting ''When was CURT founded?'' \<and> \<not> is_off_topic ''When was CURT founded?''
   \<and> flags_hallucination (CHR 0xA0 # ''hallucination: the year is not in the context'')
   \<and> rerank_with_cohere flagging_nbsp ''When was CURT founded?''
        [doc_about, doc_history, doc_faq] 5
       = Inr [doc_faq\<lparr>metadata := (metadata doc_faq)\<lparr>rerank_score := Some 9\<rparr>\<rparr>]
   \<and> map_sum id (\<lambda>result. (result ''raw_answer'', result ''answer''))
        (run flagging_nbsp ''When was CURT founded?'' [msg_u1, msg_a1])
       = Inr (Some (Str (''CURT was founded in 1999.'' @ DISCLAIMER)),
              Some (Str (''CURT was founded in 1999.'' @ DISCLAIMER @ ''\<newline>'' @ SOURCES_HEADER
                         @ ''1. docs/faq.md\<newline>'')))
   \<and> contains DISCLAIMER
        (''CURT was founded in 1999.'' @ DISCLAIMER @ ''\<newline>'' @ SOURCES_HEADER
           @ ''1. docs/faq.md\<newline>'')"
proof -
  let ?q = "''When was CURT founded?''"
  let ?docs = "[doc_about, doc_history, doc_faq]"
  let ?valid = "[doc_faq\<lparr>metadata := (metadata doc_faq)\<lparr>rerank_score := Some 9\<rparr>\<rparr>]"
  let ?draft = "''CURT was founded in 1999.''"
  let ?reply = "CHR 0xA0 # ''hallucination: the year is not in the context''"
  have g: "\<not> is_greeting ?q" by code_simp
  have o: "\<not> is_off_topic ?q" by code_simp
  have x: "expansion_chain flagging_nbsp ?q = Inr (?q @ '' Cairo University Racing Team'')"
    by (simp add: flagging_nbsp_def flagging_def)
  have r: "retriever flagging_nbsp (?q @ '' Cairo University Racing Team'') = Inr ?docs"
    by (simp add: flagging_nbsp_def flagging_def)
  have ne: "?docs \<noteq> []" by simp
  have v: "rerank_with_cohere flagging_nbsp ?q ?docs 5 = Inr ?valid"
    by code_simp
  have gen: "rag_chain flagging_nbsp c q h = Inr ?draft" for c q h
    by (simp add: flagging_nbsp_def flagging_def)
  have ver: "hallucination_chain flagging_nbsp c a = Inr ?reply" for c a
    by (simp add: flagging_nbsp_def)
  have f: "flags_hallucination ?reply"
    by code_simp
  obtain result where res: "run flagging_nbsp ?q [msg_u1, msg_a1] = Inr result"
      "result ''raw_answer'' = Some (Str (?draft @ DISCLAIMER))"
      "result ''answer'' =
         Some (Str (enhance_response_with_sources (?draft @ DISCLAIMER) (map DocumentChunk ?valid)))"
      "contains DISCLAIMER
         (enhance_response_with_sources (?draft @ DISCLAIMER) (map DocumentChunk ?valid))"
    using run_flagged_disclaimer [OF g o x r ne v refl gen ver f, of "[msg_u1, msg_a1]"]
    by blast
  have e: "enhance_response_with_sources (?draft @ DISCLAIMER) (map DocumentChunk ?valid)
             = ?draft @ DISCLAIMER @ ''\<newline>'' @ SOURCES_HEADER @ ''1. docs/faq.md\<newline>''"
    by code_simp
  from g o f v res e show ?thesis by simp
qed

text \<open>
  The claim as stated fails: in the run below the verifier's response starts with the
  marker, and the \<open>raw_answer\<close> returned is the draft with the disclaimer at its end.
\<close>

theorem run_raw_answer_disclaimer_counterexample:
  "flags_hallucination ''HALLUCINATION: the year is not in the context''
   \<and> hallucination_chain flagging ''Students of any faculty can apply in September.''
         ''CURT was founded in 1999.''
       = Inr ''HALLUCINATION: the year is not in the context''
   \<and> map_sum id (\<lambda>result. result ''raw_answer'') (run flagging ''When was CURT founded?'' [])
       = Inr (Some (Str (''CURT was founded in 1999.'' @ DISCLAIMER)))
   \<and> contains DISCLAIMER (''CURT was founded in 1999.'' @ DISCLAIMER)"
proof -
  have "flags_hallucination ''HALLUCINATION: the year is not in the context''"
    by code_simp
  moreover have "hallucination_chain flagging ''Students of any faculty can apply in September.''
         ''CURT was founded in 1999.''
       = Inr ''HALLUCINATION: the year is not in the context''"
    by (simp add: flagging_def)
  moreover have "map_sum id (\<lambda>result. result ''raw_answer'')
        (run flagging ''When was CURT founded?'' [])
       = Inr (Some (Str (''CURT was founded in 1999.'' @ DISCLAIMER)))"
    by code_simp
  moreover have "contains DISCLAIMER (''CURT was founded in 1999.'' @ DISCLAIMER)"
    by code_simp
  ultimately show ?thesis by blast
qed

end
